theory Spec2Isabelle
  imports Main "HOL-Library.Word"
begin

unbundle bit_operations_syntax

section \<open>Register-level model of \<^verbatim>\<open>write_packet\<close> (rp2.c)\<close>

text \<open>
  \<^verbatim>\<open>write_packet\<close> talks to a UART through a \<^verbatim>\<open>volatile uint32_t*\<close>: every
  \<^verbatim>\<open>base[i]\<close> on the right of an assignment is a load that the hardware answers, every
  \<^verbatim>\<open>base[i] = v\<close> is a store that the hardware sees. The model therefore threads the
  sequence of accesses performed so far (the trace) through the function, and takes the
  value a load returns from an environment that may look at the whole trace. A register
  that simply keeps what was stored, a status flag that changes on its own, and a control
  register whose bits are changed by the hardware between two accesses are all
  environments of this kind.
\<close>

type_synonym u8 = "8 word"
type_synonym u32 = "32 word"
type_synonym size_t = "32 word"

subsection \<open>The macros of the file\<close>

text \<open>
  The macros are C \<^verbatim>\<open>int\<close> constants. Where one of them meets the \<^verbatim>\<open>uint32_t\<close>
  variable \<^verbatim>\<open>cr\<close> or \<^verbatim>\<open>fr\<close>, C converts the \<^verbatim>\<open>int\<close> operand (also the negative
  \<^verbatim>\<open>~UARTCR_TXE\<close>) to \<^verbatim>\<open>uint32_t\<close> modulo \<open>2 ^ 32\<close>, which is \<^const>\<open>word_of_int\<close>.
\<close>

definition UART0_BASE :: int where
  "UART0_BASE = 0x40034000"

definition UARTCR :: int where
  "UARTCR = 0x30"

definition UARTCR_RXE :: int where
  "UARTCR_RXE = push_bit 9 1"

definition UARTCR_TXE :: int where
  "UARTCR_TXE = push_bit 8 1"

definition UARTFR :: int where
  "UARTFR = 0x18"

definition UARTFR_TXFE :: int where
  "UARTFR_TXFE = push_bit 7 1"

definition UARTFR_TXFF :: int where
  "UARTFR_TXFF = push_bit 5 1"

definition UARTFR_BUSY :: int where
  "UARTFR_BUSY = push_bit 3 1"

subsection \<open>Volatile accesses and their trace\<close>

text \<open>
  An event is one memory access or instruction of the function: a load of \<^verbatim>\<open>base[i]\<close>
  with the value it returned, a store to \<^verbatim>\<open>base[i]\<close> with the value stored, the \<^verbatim>\<open>nop\<close>
  instruction, a load of \<^verbatim>\<open>buf[i]\<close> with the byte it returned, or a store to \<^verbatim>\<open>buf[i]\<close>
  with the byte stored. The index \<open>i\<close> of a register access counts 32-bit words from
  \<^verbatim>\<open>base\<close>, the index of a buffer access counts bytes from \<^verbatim>\<open>buf\<close>, as the subscripts
  of C do.
\<close>

datatype event = Read int u32 | Write int u32 | Nop | BufRead nat u8 | BufWrite nat u8

type_synonym env = "event list \<Rightarrow> int \<Rightarrow> u32"

text \<open>
  The second parameter of the C function is the pointer \<^verbatim>\<open>uint8_t* buf\<close>. A pointer
  gives the function the memory behind it and nothing else, and the only way to learn or
  change a byte of that memory is to dereference the pointer. So \<^verbatim>\<open>buf\<close> is modelled
  like \<^verbatim>\<open>base\<close>: as the memory that answers a load of \<^verbatim>\<open>buf[i]\<close>, and every
  dereference goes through \<open>bread\<close> or \<open>bwrite\<close> below and leaves its event in the trace.
\<close>

type_synonym buffer = "event list \<Rightarrow> nat \<Rightarrow> u8"

text \<open>\<^verbatim>\<open>base\<close> points to \<^verbatim>\<open>uint32_t\<close>: word \<open>i\<close> lies \<open>4 * i\<close> bytes behind it.\<close>

definition byte_offset :: "int \<Rightarrow> int" where
  "byte_offset i = 4 * i"

definition vread :: "env \<Rightarrow> int \<Rightarrow> event list \<Rightarrow> u32 \<times> event list" where
  "vread e i tr = (let v = e tr i in (v, tr @ [Read i v]))"

definition vwrite :: "int \<Rightarrow> u32 \<Rightarrow> event list \<Rightarrow> event list" where
  "vwrite i v tr = tr @ [Write i v]"

definition nop :: "event list \<Rightarrow> event list" where
  "nop tr = tr @ [Nop]"

definition bread :: "buffer \<Rightarrow> nat \<Rightarrow> event list \<Rightarrow> u8 \<times> event list" where
  "bread b i tr = (let v = b tr i in (v, tr @ [BufRead i v]))"

definition bwrite :: "nat \<Rightarrow> u8 \<Rightarrow> event list \<Rightarrow> event list" where
  "bwrite i v tr = tr @ [BufWrite i v]"

subsection \<open>\<^verbatim>\<open>write_packet\<close>\<close>

text \<open>
  Lines 16 to 19:
  \<^verbatim>\<open>uint32_t cr = base[UARTCR / 4]; cr |= UARTCR_RXE; cr &= ~UARTCR_TXE; base[UARTCR / 4] = cr;\<close>
\<close>

definition set_rx_mode :: "env \<Rightarrow> event list \<Rightarrow> event list" where
  "set_rx_mode e tr =
     (let (cr, tr) = vread e (UARTCR div 4) tr;
          cr = cr OR word_of_int UARTCR_RXE;
          cr = cr AND word_of_int (NOT UARTCR_TXE)
      in vwrite (UARTCR div 4) cr tr)"

text \<open>
  Lines 23 to 28:
  \<^verbatim>\<open>while (1) { uint32_t fr = base[UARTFR / 4]; if ((fr & UARTFR_TXFF) == 0) { break; } }\<close>
  The loop has no bound, so it is a partial function: \<open>None\<close> is the loop that never
  leaves.
\<close>

partial_function (option) poll_txff :: "env \<Rightarrow> event list \<Rightarrow> event list option" where
  "poll_txff e tr =
     (case vread e (UARTFR div 4) tr of
        (fr, tr') \<Rightarrow>
          if fr AND word_of_int UARTFR_TXFF = 0 then Some tr' else poll_txff e tr')"

text \<open>
  Lines 32 to 35:
  \<^verbatim>\<open>cr = base[UARTCR / 4]; cr |= UARTCR_TXE; cr &= ~UARTCR_RXE; base[UARTCR / 4] = cr;\<close>
\<close>

definition set_tx_mode :: "env \<Rightarrow> event list \<Rightarrow> event list" where
  "set_tx_mode e tr =
     (let (cr, tr) = vread e (UARTCR div 4) tr;
          cr = cr OR word_of_int UARTCR_TXE;
          cr = cr AND word_of_int (NOT UARTCR_RXE)
      in vwrite (UARTCR div 4) cr tr)"

text \<open>
  The whole function, lines 15 to 36. It starts from the empty trace and returns the
  trace of the call, or \<open>None\<close> when the call never returns. \<^verbatim>\<open>buf\<close> and \<^verbatim>\<open>len\<close> are
  parameters of the C function; its body has no \<^verbatim>\<open>buf[i]\<close>, no \<^verbatim>\<open>*buf\<close> and no
  \<^verbatim>\<open>len\<close>, so the model has no \<open>bread\<close>, no \<open>bwrite\<close> and no use of \<open>len\<close>.
\<close>

definition write_packet :: "env \<Rightarrow> buffer \<Rightarrow> size_t \<Rightarrow> event list option" where
  "write_packet e buf len =
     (case poll_txff e (nop (set_rx_mode e [])) of
        None \<Rightarrow> None
      | Some tr \<Rightarrow> Some (set_tx_mode e (nop tr)))"

subsection \<open>Reading a trace\<close>

fun writes :: "event list \<Rightarrow> (int \<times> u32) list" where
  "writes [] = []"
| "writes (Write i v # es) = (i, v) # writes es"
| "writes (Read i v # es) = writes es"
| "writes (Nop # es) = writes es"
| "writes (BufRead i v # es) = writes es"
| "writes (BufWrite i v # es) = writes es"

fun reads :: "event list \<Rightarrow> (int \<times> u32) list" where
  "reads [] = []"
| "reads (Read i v # es) = (i, v) # reads es"
| "reads (Write i v # es) = reads es"
| "reads (Nop # es) = reads es"
| "reads (BufRead i v # es) = reads es"
| "reads (BufWrite i v # es) = reads es"

text \<open>The accesses through \<^verbatim>\<open>buf\<close> in a trace: loads and stores, with index and byte.\<close>

fun buffer_accesses :: "event list \<Rightarrow> (nat \<times> u8) list" where
  "buffer_accesses [] = []"
| "buffer_accesses (BufRead i v # es) = (i, v) # buffer_accesses es"
| "buffer_accesses (BufWrite i v # es) = (i, v) # buffer_accesses es"
| "buffer_accesses (Read i v # es) = buffer_accesses es"
| "buffer_accesses (Write i v # es) = buffer_accesses es"
| "buffer_accesses (Nop # es) = buffer_accesses es"

text \<open>The values stored to, and loaded from, word \<open>i\<close>, oldest first.\<close>

definition writes_to :: "int \<Rightarrow> event list \<Rightarrow> u32 list" where
  "writes_to i tr = map snd (filter (\<lambda>p. fst p = i) (writes tr))"

definition reads_of :: "int \<Rightarrow> event list \<Rightarrow> u32 list" where
  "reads_of i tr = map snd (filter (\<lambda>p. fst p = i) (reads tr))"

subsection \<open>Environments\<close>

text \<open>
  A control register that is a plain storage cell: a load returns the value of the last
  store, and \<open>V\<close> before the first one. All other registers are left to \<open>other\<close>.
\<close>

definition cr_cell :: "u32 \<Rightarrow> env \<Rightarrow> env" where
  "cr_cell V other tr i =
     (if i = UARTCR div 4 then last (V # writes_to i tr) else other tr i)"

text \<open>
  A flag register that follows a script: its \<open>k\<close>-th load (counting from 0) returns
  \<open>flags k\<close>. All other registers are left to \<open>other\<close>.
\<close>

definition fr_script :: "(nat \<Rightarrow> u32) \<Rightarrow> env \<Rightarrow> env" where
  "fr_script flags other tr i =
     (if i = UARTFR div 4 then flags (length (reads_of i tr)) else other tr i)"

text \<open>
  The register block of a test bench: the control register is a storage cell holding
  \<open>V\<close>, the flag register follows \<open>flags\<close>, every other word reads as 0.
\<close>

definition mock :: "u32 \<Rightarrow> (nat \<Rightarrow> u32) \<Rightarrow> env" where
  "mock V flags = cr_cell V (fr_script flags (\<lambda>tr i. 0))"

section \<open>Basic facts\<close>

lemma UARTCR_index [simp]: "UARTCR div 4 = 12"
  by (simp add: UARTCR_def)

lemma UARTFR_index [simp]: "UARTFR div 4 = 6"
  by (simp add: UARTFR_def)

lemma RXE_u32 [simp]: "(word_of_int UARTCR_RXE :: u32) = 0x200"
  by (simp add: UARTCR_RXE_def)

lemma TXE_u32 [simp]: "(word_of_int UARTCR_TXE :: u32) = 0x100"
  by (simp add: UARTCR_TXE_def)

lemma not_RXE_u32 [simp]: "(word_of_int (NOT UARTCR_RXE) :: u32) = NOT 0x200"
  by (simp add: UARTCR_RXE_def)

lemma not_TXE_u32 [simp]: "(word_of_int (NOT UARTCR_TXE) :: u32) = NOT 0x100"
  by (simp add: UARTCR_TXE_def)

lemma TXFF_u32 [simp]: "(word_of_int UARTFR_TXFF :: u32) = 0x20"
  by (simp add: UARTFR_TXFF_def)

lemma reads_append: "reads (xs @ ys) = reads xs @ reads ys"
  by (induction xs rule: reads.induct) simp_all

lemma writes_append: "writes (xs @ ys) = writes xs @ writes ys"
  by (induction xs rule: writes.induct) simp_all

lemma reads_of_append: "reads_of i (xs @ ys) = reads_of i xs @ reads_of i ys"
  by (simp add: reads_of_def reads_append)

lemma writes_to_append: "writes_to i (xs @ ys) = writes_to i xs @ writes_to i ys"
  by (simp add: writes_to_def writes_append)

lemma reads_flag_loads: "reads (map (Read i) fl) = map (Pair i) fl"
  by (induction fl) simp_all

lemma writes_flag_loads: "writes (map (Read i) fl) = []"
  by (induction fl) simp_all

subsection \<open>The two direction bits\<close>

lemma bit_0x200: "bit (0x200 :: u32) n \<longleftrightarrow> n = 9"
proof -
  have "(0x200 :: u32) = push_bit 9 1" by simp
  then show ?thesis by (simp only: bit_simps) auto
qed

lemma bit_0x100: "bit (0x100 :: u32) n \<longleftrightarrow> n = 8"
proof -
  have "(0x100 :: u32) = push_bit 8 1" by simp
  then show ?thesis by (simp only: bit_simps) auto
qed

lemma rx_bits:
  "bit ((v OR 0x200) AND NOT 0x100 :: u32) n \<longleftrightarrow> n = 9 \<or> (n \<noteq> 8 \<and> bit v n)"
  by (simp only: bit_and_iff bit_or_iff bit_not_iff bit_0x200 bit_0x100)
    (auto dest: bit_imp_le_length)

lemma tx_bits:
  "bit ((v OR 0x100) AND NOT 0x200 :: u32) n \<longleftrightarrow> n = 8 \<or> (n \<noteq> 9 \<and> bit v n)"
  by (simp only: bit_and_iff bit_or_iff bit_not_iff bit_0x200 bit_0x100)
    (auto dest: bit_imp_le_length)

lemma txff_clear_iff: "f AND (0x20 :: u32) = 0 \<longleftrightarrow> \<not> bit f 5"
proof -
  have "(0x20 :: u32) = 2 ^ 5" by simp
  then show ?thesis by (simp only: and_exp_eq_0_iff_not_bit)
qed

subsection \<open>The straight-line parts\<close>

lemma set_rx_mode_eq:
  "set_rx_mode e tr = tr @ [Read 12 (e tr 12), Write 12 ((e tr 12 OR 0x200) AND NOT 0x100)]"
  by (simp add: set_rx_mode_def vread_def vwrite_def Let_def)

lemma set_tx_mode_eq:
  "set_tx_mode e tr = tr @ [Read 12 (e tr 12), Write 12 ((e tr 12 OR 0x100) AND NOT 0x200)]"
  by (simp add: set_tx_mode_def vread_def vwrite_def Let_def)

subsection \<open>The poll loop\<close>

lemma poll_txff_step:
  "poll_txff e tr =
     (if e tr 6 AND 0x20 = 0 then Some (tr @ [Read 6 (e tr 6)])
      else poll_txff e (tr @ [Read 6 (e tr 6)]))"
  by (subst poll_txff.simps) (simp add: vread_def Let_def)

text \<open>
  A loop that leaves has appended flag loads only: at least one, the last one with
  bit 5 clear, all earlier ones with bit 5 set.
\<close>

lemma poll_txff_shape:
  assumes "poll_txff e tr = Some tr'"
  shows "\<exists>fl. tr' = tr @ map (Read 6) fl \<and> fl \<noteq> [] \<and> last fl AND 0x20 = 0
           \<and> list_all (\<lambda>f. f AND 0x20 \<noteq> 0) (butlast fl)"
proof (rule poll_txff.raw_induct
    [where P = "\<lambda>e tr tr'. \<exists>fl. tr' = tr @ map (Read 6) fl \<and> fl \<noteq> [] \<and> last fl AND 0x20 = 0
           \<and> list_all (\<lambda>f. f AND 0x20 \<noteq> 0) (butlast fl)", OF _ assms])
  fix poll :: "env \<Rightarrow> event list \<Rightarrow> event list option" and e tr tr'
  assume IH: "\<And>e tr tr'. poll e tr = Some tr' \<Longrightarrow>
      \<exists>fl. tr' = tr @ map (Read 6) fl \<and> fl \<noteq> [] \<and> last fl AND 0x20 = 0
           \<and> list_all (\<lambda>f. f AND 0x20 \<noteq> 0) (butlast fl)"
    and body: "(case vread e (UARTFR div 4) tr of
        (fr, tr') \<Rightarrow> if fr AND word_of_int UARTFR_TXFF = 0 then Some tr' else poll e tr') = Some tr'"
  show "\<exists>fl. tr' = tr @ map (Read 6) fl \<and> fl \<noteq> [] \<and> last fl AND 0x20 = 0
           \<and> list_all (\<lambda>f. f AND 0x20 \<noteq> 0) (butlast fl)"
  proof (cases "e tr 6 AND 0x20 = 0")
    case True
    with body have "tr' = tr @ map (Read 6) [e tr 6]"
      by (simp add: vread_def Let_def)
    with True show ?thesis by (intro exI [of _ "[e tr 6]"]) simp
  next
    case False
    with body have "poll e (tr @ [Read 6 (e tr 6)]) = Some tr'"
      by (simp add: vread_def Let_def)
    from IH [OF this] obtain fl where
      fl: "tr' = (tr @ [Read 6 (e tr 6)]) @ map (Read 6) fl" "fl \<noteq> []" "last fl AND 0x20 = 0"
        "list_all (\<lambda>f. f AND 0x20 \<noteq> 0) (butlast fl)"
      by blast
    with False show ?thesis by (intro exI [of _ "e tr 6 # fl"]) simp
  qed
qed

text \<open>
  When every flag load that can follow \<open>tr\<close> has bit 5 set, the loop started at \<open>tr\<close>
  never leaves.
\<close>

lemma poll_txff_stuck:
  assumes "\<And>fl. e (tr @ map (Read 6) fl) 6 AND 0x20 \<noteq> 0"
  shows "poll_txff e tr = None"
proof (rule ccontr)
  assume "poll_txff e tr \<noteq> None"
  then obtain tr' where ret: "poll_txff e tr = Some tr'" by auto
  have "(\<forall>fl. e (tr @ map (Read 6) fl) 6 AND 0x20 \<noteq> 0) \<longrightarrow> False"
  proof (rule poll_txff.raw_induct
      [where P = "\<lambda>e tr tr'. (\<forall>fl. e (tr @ map (Read 6) fl) 6 AND 0x20 \<noteq> 0) \<longrightarrow> False",
        OF _ ret])
    fix poll :: "env \<Rightarrow> event list \<Rightarrow> event list option" and e tr tr'
    assume IH: "\<And>e tr tr'. poll e tr = Some tr' \<Longrightarrow>
        (\<forall>fl. e (tr @ map (Read 6) fl) 6 AND 0x20 \<noteq> 0) \<longrightarrow> False"
      and body: "(case vread e (UARTFR div 4) tr of
        (fr, tr') \<Rightarrow> if fr AND word_of_int UARTFR_TXFF = 0 then Some tr' else poll e tr') = Some tr'"
    show "(\<forall>fl. e (tr @ map (Read 6) fl) 6 AND 0x20 \<noteq> 0) \<longrightarrow> False"
    proof
      assume all: "\<forall>fl. e (tr @ map (Read 6) fl) 6 AND 0x20 \<noteq> 0"
      from all [rule_format, of "[]"] have now: "e tr 6 AND 0x20 \<noteq> 0" by simp
      with body have "poll e (tr @ [Read 6 (e tr 6)]) = Some tr'"
        by (simp add: vread_def Let_def)
      moreover have "\<forall>fl. e ((tr @ [Read 6 (e tr 6)]) @ map (Read 6) fl) 6 AND 0x20 \<noteq> 0"
      proof
        fix fl
        from all [rule_format, of "e tr 6 # fl"]
        show "e ((tr @ [Read 6 (e tr 6)]) @ map (Read 6) fl) 6 AND 0x20 \<noteq> 0" by simp
      qed
      ultimately show False using IH by blast
    qed
  qed
  with assms show False by simp
qed

text \<open>
  With a scripted flag register that has been loaded \<open>c\<close> times, reports full on the
  next \<open>N\<close> loads and not full on the one after, the loop performs exactly \<open>N + 1\<close>
  loads.
\<close>

lemma poll_txff_script:
  assumes "length (reads_of 6 tr) = c"
    and "\<And>k. k < N \<Longrightarrow> flags (c + k) AND 0x20 \<noteq> 0"
    and "flags (c + N) AND 0x20 = 0"
  shows "poll_txff (fr_script flags other) tr =
           Some (tr @ map (\<lambda>k. Read 6 (flags k)) [c ..< c + N + 1])"
  using assms
proof (induction N arbitrary: tr c)
  case 0
  then show ?case
    by (subst poll_txff_step) (simp add: fr_script_def)
next
  case (Suc N)
  let ?tr = "tr @ [Read 6 (flags c)]"
  have full: "flags c AND 0x20 \<noteq> 0" using Suc.prems(2) [of 0] by simp
  have len: "length (reads_of 6 ?tr) = Suc c"
    using Suc.prems(1) by (simp add: reads_of_def reads_append)
  have "poll_txff (fr_script flags other) ?tr =
          Some (?tr @ map (\<lambda>k. Read 6 (flags k)) [Suc c ..< Suc c + N + 1])"
  proof (rule Suc.IH [OF len])
    fix k assume "k < N"
    then show "flags (Suc c + k) AND 0x20 \<noteq> 0" using Suc.prems(2) [of "Suc k"] by simp
  next
    show "flags (Suc c + N) AND 0x20 = 0" using Suc.prems(3) by simp
  qed
  moreover have "[c ..< c + Suc N + 1] = c # [Suc c ..< Suc c + N + 1]"
    by (simp add: upt_conv_Cons)
  ultimately show ?case using full Suc.prems(1)
    by (subst poll_txff_step) (simp add: fr_script_def)
qed

subsection \<open>The trace of a call that returns\<close>

lemma write_packet_shape:
  assumes "write_packet e buf len = Some tr"
  shows "\<exists>fl pre. pre = [Read 12 (e [] 12), Write 12 ((e [] 12 OR 0x200) AND NOT 0x100), Nop]
            @ map (Read 6) fl @ [Nop]
          \<and> tr = pre @ [Read 12 (e pre 12), Write 12 ((e pre 12 OR 0x100) AND NOT 0x200)]
          \<and> fl \<noteq> [] \<and> last fl AND 0x20 = 0
          \<and> list_all (\<lambda>f. f AND 0x20 \<noteq> 0) (butlast fl)"
proof -
  from assms obtain tr' where
    loop: "poll_txff e (nop (set_rx_mode e [])) = Some tr'" and
    tr: "tr = set_tx_mode e (nop tr')"
    by (auto simp: write_packet_def split: option.splits)
  from poll_txff_shape [OF loop] obtain fl where
    fl: "tr' = nop (set_rx_mode e []) @ map (Read 6) fl" "fl \<noteq> []" "last fl AND 0x20 = 0"
      "list_all (\<lambda>f. f AND 0x20 \<noteq> 0) (butlast fl)"
    by blast
  let ?pre = "[Read 12 (e [] 12), Write 12 ((e [] 12 OR 0x200) AND NOT 0x100), Nop]
            @ map (Read 6) fl @ [Nop]"
  have "nop tr' = ?pre"
    using fl(1) by (simp add: nop_def set_rx_mode_eq)
  with tr have "tr = ?pre @ [Read 12 (e ?pre 12), Write 12 ((e ?pre 12 OR 0x100) AND NOT 0x200)]"
    by (simp only: set_tx_mode_eq)
  with fl(2-4) show ?thesis by blast
qed

subsection \<open>Bits outside the direction field, and the storage cell\<close>

lemma other_bits_rx: "((v OR 0x200) AND NOT 0x100) AND NOT 0x300 = v AND NOT (0x300 :: u32)"
proof (rule bit_eqI)
  fix n
  have "(0x300 :: u32) = 0x100 OR 0x200" by simp
  then show "bit (((v OR 0x200) AND NOT 0x100) AND NOT 0x300) n = bit (v AND NOT (0x300 :: u32)) n"
    by (simp only: bit_and_iff bit_or_iff bit_not_iff bit_0x200 bit_0x100) auto
qed

lemma other_bits_tx: "((v OR 0x100) AND NOT 0x200) AND NOT 0x300 = v AND NOT (0x300 :: u32)"
proof (rule bit_eqI)
  fix n
  have "(0x300 :: u32) = 0x100 OR 0x200" by simp
  then show "bit (((v OR 0x100) AND NOT 0x200) AND NOT 0x300) n = bit (v AND NOT (0x300 :: u32)) n"
    by (simp only: bit_and_iff bit_or_iff bit_not_iff bit_0x200 bit_0x100) auto
qed

lemma cr_cell_12: "cr_cell V other tr 12 = last (V # writes_to 12 tr)"
  by (simp add: cr_cell_def)

subsection \<open>Loads and stores of one register in a trace\<close>

lemma reads_of_simps:
  "reads_of i [] = []"
  "reads_of i (Read j v # es) = (if j = i then v # reads_of i es else reads_of i es)"
  "reads_of i (Write j v # es) = reads_of i es"
  "reads_of i (Nop # es) = reads_of i es"
  by (simp_all add: reads_of_def)

lemma writes_to_simps:
  "writes_to i [] = []"
  "writes_to i (Write j v # es) = (if j = i then v # writes_to i es else writes_to i es)"
  "writes_to i (Read j v # es) = writes_to i es"
  "writes_to i (Nop # es) = writes_to i es"
  by (simp_all add: writes_to_def)

lemma reads_of_loads: "reads_of i (map (Read i) fl) = fl"
  by (induction fl) (simp_all add: reads_of_simps)

lemma flag_loads_of_call:
  "reads_of 6 ([Read 12 v0, Write 12 w0, Nop] @ map (Read 6) fl @ [Nop, Read 12 v1, Write 12 w1])
     = fl"
  by (simp add: reads_of_simps reads_of_append reads_of_loads)

lemma writes_of_call:
  "writes ([Read 12 v0, Write 12 w0, Nop] @ map (Read 6) fl @ [Nop, Read 12 v1, Write 12 w1])
     = [(12, w0), (12, w1)]"
  by (simp add: writes_append writes_flag_loads)

lemma reads_of_call:
  "reads ([Read 12 v0, Write 12 w0, Nop] @ map (Read 6) fl @ [Nop, Read 12 v1, Write 12 w1])
     = (12, v0) # map (Pair 6) fl @ [(12, v1)]"
  by (simp add: reads_append reads_flag_loads)

lemma buffer_accesses_append:
  "buffer_accesses (xs @ ys) = buffer_accesses xs @ buffer_accesses ys"
  by (induction xs rule: buffer_accesses.induct) simp_all

lemma buffer_accesses_flag_loads: "buffer_accesses (map (Read i) fl) = []"
  by (induction fl) simp_all

lemma buffer_accesses_of_call:
  "buffer_accesses
     ([Read 12 v0, Write 12 w0, Nop] @ map (Read 6) fl @ [Nop, Read 12 v1, Write 12 w1]) = []"
  by (simp add: buffer_accesses_append buffer_accesses_flag_loads)

lemma write_packet_trace:
  assumes "write_packet e buf len = Some tr"
  obtains fl v0 v1 where
    "tr = [Read 12 v0, Write 12 ((v0 OR 0x200) AND NOT 0x100), Nop] @ map (Read 6) fl
          @ [Nop, Read 12 v1, Write 12 ((v1 OR 0x100) AND NOT 0x200)]"
    "v0 = e [] 12"
    "v1 = e ([Read 12 v0, Write 12 ((v0 OR 0x200) AND NOT 0x100), Nop] @ map (Read 6) fl @ [Nop]) 12"
    "fl \<noteq> []" "last fl AND 0x20 = 0" "list_all (\<lambda>f. f AND 0x20 \<noteq> 0) (butlast fl)"
proof -
  from write_packet_shape [OF assms] obtain fl pre where
    pre: "pre = [Read 12 (e [] 12), Write 12 ((e [] 12 OR 0x200) AND NOT 0x100), Nop]
            @ map (Read 6) fl @ [Nop]" and
    tr: "tr = pre @ [Read 12 (e pre 12), Write 12 ((e pre 12 OR 0x100) AND NOT 0x200)]" and
    fl: "fl \<noteq> []" "last fl AND 0x20 = 0" "list_all (\<lambda>f. f AND 0x20 \<noteq> 0) (butlast fl)"
    by blast
  have "tr = [Read 12 (e [] 12), Write 12 ((e [] 12 OR 0x200) AND NOT 0x100), Nop]
      @ map (Read 6) fl @ [Nop, Read 12 (e pre 12), Write 12 ((e pre 12 OR 0x100) AND NOT 0x200)]"
    unfolding tr by (subst pre) (simp only: append_assoc append_Cons append_Nil)
  then show thesis
    using fl by (rule that [OF _ refl pre [THEN arg_cong, of "\<lambda>p. e p 12"]])
qed

subsection \<open>A run on the test bench\<close>

text \<open>
  The control register starts with both direction bits set (\<open>0x3A5\<close>), the flag register
  reports a full FIFO twice and then a free slot.
\<close>

lemma mock_run:
  "write_packet (mock 0x3A5 (\<lambda>k. if k < 2 then 0x20 else 0)) buf len =
     Some [Read 12 0x3A5, Write 12 0x2A5, Nop, Read 6 0x20, Read 6 0x20, Read 6 0, Nop,
           Read 12 0x2A5, Write 12 0x1A5]"
  by (simp add: write_packet_def set_rx_mode_eq set_tx_mode_eq nop_def poll_txff_step
      mock_def cr_cell_def fr_script_def reads_of_def writes_to_def)

section \<open>The properties of the specification\<close>

text \<open>
  C1 (bit discipline of the first read-modify-write). Whatever the trace so far and
  whatever value \<open>V\<close> the control register returns, lines 16 to 19 load the word at byte
  offset \<open>0x30\<close> once and store to it once, and the value stored has bit 9
  (receive-enable) set, bit 8 (transmit-enable) clear, and every other bit equal to the
  same bit of \<open>V\<close>. This holds whether or not the poll loop that follows ever leaves.
\<close>

theorem set_rx_mode_bits:
  "\<exists>w. set_rx_mode e tr =
          tr @ [Read (UARTCR div 4) (e tr (UARTCR div 4)), Write (UARTCR div 4) w]
     \<and> byte_offset (UARTCR div 4) = 0x30
     \<and> bit w 9 \<and> \<not> bit w 8
     \<and> (\<forall>n. n \<noteq> 9 \<and> n \<noteq> 8 \<longrightarrow> bit w n = bit (e tr (UARTCR div 4)) n)"
proof -
  let ?w = "(e tr 12 OR 0x200) AND NOT 0x100"
  have "set_rx_mode e tr =
      tr @ [Read (UARTCR div 4) (e tr (UARTCR div 4)), Write (UARTCR div 4) ?w]"
    by (simp only: set_rx_mode_eq UARTCR_index)
  moreover have "byte_offset (UARTCR div 4) = 0x30"
    by (simp add: byte_offset_def)
  moreover have "bit ?w 9" "\<not> bit ?w 8"
    by (simp_all only: rx_bits) simp_all
  moreover have "\<forall>n. n \<noteq> 9 \<and> n \<noteq> 8 \<longrightarrow> bit ?w n = bit (e tr (UARTCR div 4)) n"
    by (simp only: rx_bits UARTCR_index) simp
  ultimately show ?thesis by blast
qed

theorem set_rx_mode_bits_witness:
  "(5 :: nat) \<noteq> 9 \<and> (5 :: nat) \<noteq> 8 \<and>
   (\<exists>w. set_rx_mode (\<lambda>tr i. 0x121) [] = [Read 12 0x121, Write 12 w]
      \<and> bit w 9 \<and> \<not> bit w 8 \<and> bit w 5 = bit (0x121 :: u32) 5)"
  using set_rx_mode_bits [of "\<lambda>tr i. 0x121" "[]"] by auto

text \<open>
  C2 (state on return). Whenever \<^verbatim>\<open>write_packet\<close> returns, the last thing it did was to
  store a value with bit 8 (transmit-enable) set and bit 9 (receive-enable) clear to the
  control register, so that is the last value the register was given; and the poll loop
  loaded the flag register at least once, the last load having bit 5 (transmit FIFO full)
  clear.
\<close>

theorem write_packet_returns_in_tx_mode:
  assumes "write_packet e buf len = Some tr"
  shows "\<exists>pre w. tr = pre @ [Write (UARTCR div 4) w] \<and> bit w 8 \<and> \<not> bit w 9
           \<and> last (writes_to (UARTCR div 4) tr) = w
           \<and> reads_of (UARTFR div 4) tr \<noteq> []
           \<and> \<not> bit (last (reads_of (UARTFR div 4) tr)) 5
           \<and> last (reads_of (UARTFR div 4) tr) AND word_of_int UARTFR_TXFF = 0"
proof -
  from write_packet_shape [OF assms] obtain fl pre where
    pre: "pre = [Read 12 (e [] 12), Write 12 ((e [] 12 OR 0x200) AND NOT 0x100), Nop]
            @ map (Read 6) fl @ [Nop]" and
    tr: "tr = pre @ [Read 12 (e pre 12), Write 12 ((e pre 12 OR 0x100) AND NOT 0x200)]" and
    fl: "fl \<noteq> []" "last fl AND 0x20 = 0"
    by blast
  let ?w = "(e pre 12 OR 0x100) AND NOT 0x200"
  have "tr = (pre @ [Read 12 (e pre 12)]) @ [Write (UARTCR div 4) ?w]"
    using tr by (simp only: UARTCR_index append_assoc append_Cons append_Nil)
  moreover have "bit ?w 8" "\<not> bit ?w 9"
    by (simp_all only: tx_bits) simp_all
  moreover have "last (writes_to (UARTCR div 4) tr) = ?w"
    unfolding tr by (simp only: writes_to_append UARTCR_index) (simp add: writes_to_def)
  moreover have fr: "reads_of (UARTFR div 4) tr = fl"
    unfolding tr pre
    by (simp add: reads_of_def reads_append reads_flag_loads filter_map comp_def)
  moreover have "\<not> bit (last fl) 5"
    using fl(2) txff_clear_iff by blast
  ultimately show ?thesis using fl by (simp only: TXFF_u32) blast
qed

theorem write_packet_returns_in_tx_mode_witness:
  "write_packet (mock 0x3A5 (\<lambda>k. if k < 2 then 0x20 else 0)) (\<lambda>tr i. 0xAA) 4 =
     Some [Read 12 0x3A5, Write 12 0x2A5, Nop, Read 6 0x20, Read 6 0x20, Read 6 0, Nop,
           Read 12 0x2A5, Write 12 0x1A5]
   \<and> bit (0x1A5 :: u32) 8 \<and> \<not> bit (0x1A5 :: u32) 9 \<and> \<not> bit (0 :: u32) 5"
  using write_packet_returns_in_tx_mode [OF mock_run [of "\<lambda>tr i. 0xAA" 4]] mock_run [of "\<lambda>tr i. 0xAA" 4]
  by (simp add: reads_of_def writes_to_def)

text \<open>
  C3 (non-interference). Let the control register be a storage cell that holds \<open>V\<close> when
  the call starts, whatever the other registers do. When the call returns, every value it
  stored to the control register, and so the value \<open>R\<close> the register holds at the end,
  agrees with \<open>V\<close> outside bits 8 and 9: \<open>R AND NOT 0x300 = V AND NOT 0x300\<close>.
\<close>

theorem write_packet_keeps_other_bits:
  assumes "write_packet (cr_cell V other) buf len = Some tr"
  shows "cr_cell V other tr (UARTCR div 4) AND NOT 0x300 = V AND NOT 0x300
       \<and> list_all (\<lambda>w. w AND NOT 0x300 = V AND NOT 0x300) (writes_to (UARTCR div 4) tr)"
proof -
  let ?e = "cr_cell V other"
  let ?w0 = "(V OR 0x200) AND NOT 0x100"
  let ?w1 = "(?w0 OR 0x100) AND NOT 0x200"
  from write_packet_shape [OF assms] obtain fl pre where
    pre: "pre = [Read 12 (?e [] 12), Write 12 ((?e [] 12 OR 0x200) AND NOT 0x100), Nop]
            @ map (Read 6) fl @ [Nop]" and
    tr: "tr = pre @ [Read 12 (?e pre 12), Write 12 ((?e pre 12 OR 0x100) AND NOT 0x200)]"
    by blast
  have v0: "?e [] 12 = V"
    by (simp only: cr_cell_12) (simp add: writes_to_def)
  have wpre: "writes_to 12 pre = [?w0]"
    unfolding pre v0 by (simp add: writes_to_def writes_append writes_flag_loads)
  have v1: "?e pre 12 = ?w0"
    by (simp only: cr_cell_12 wpre) simp
  have wtr: "writes_to 12 tr = [?w0, ?w1]"
    unfolding tr v1 by (simp only: writes_to_append wpre) (simp add: writes_to_def)
  have "?e tr 12 = ?w1"
    by (simp only: cr_cell_12 wtr) simp
  moreover have "?w0 AND NOT 0x300 = V AND NOT 0x300"
    by (rule other_bits_rx)
  moreover have "?w1 AND NOT 0x300 = V AND NOT 0x300"
    by (simp only: other_bits_tx other_bits_rx)
  ultimately show ?thesis
    by (simp add: wtr)
qed

theorem write_packet_keeps_other_bits_witness:
  "write_packet (cr_cell 0x3A5 (fr_script (\<lambda>k. if k < 2 then 0x20 else 0) (\<lambda>tr i. 0))) (\<lambda>tr i. 0xAA) 4 =
     Some [Read 12 0x3A5, Write 12 0x2A5, Nop, Read 6 0x20, Read 6 0x20, Read 6 0, Nop,
           Read 12 0x2A5, Write 12 0x1A5]
   \<and> (0x1A5 :: u32) AND NOT 0x300 = 0x3A5 AND NOT 0x300
   \<and> (0x2A5 :: u32) AND NOT 0x300 = 0x3A5 AND NOT 0x300"
  using write_packet_keeps_other_bits [OF mock_run [of "\<lambda>tr i. 0xAA" 4, unfolded mock_def]]
    mock_run [of "\<lambda>tr i. 0xAA" 4, unfolded mock_def]
  by (simp add: writes_to_def cr_cell_def)

text \<open>
  C4 (poll termination). Let the flag register follow a script that reports the transmit
  FIFO full (bit 5 set) on each of its first \<open>N\<close> loads and not full on the next one,
  whatever the other registers do. Then \<^verbatim>\<open>write_packet\<close> returns, and between the first
  store and the final load and store of the control register it has loaded the flag
  register exactly \<open>N + 1\<close> times, the loads returning the scripted values in order.
\<close>

theorem write_packet_poll_count:
  assumes "\<forall>k<N. flags k AND word_of_int UARTFR_TXFF \<noteq> 0"
    and "flags N AND word_of_int UARTFR_TXFF = 0"
  shows "\<exists>tr v0 w0 v1 w1.
           write_packet (fr_script flags other) buf len = Some tr
         \<and> tr = [Read (UARTCR div 4) v0, Write (UARTCR div 4) w0, Nop]
               @ map (\<lambda>k. Read (UARTFR div 4) (flags k)) [0 ..< N + 1]
               @ [Nop, Read (UARTCR div 4) v1, Write (UARTCR div 4) w1]
         \<and> length (reads_of (UARTFR div 4) tr) = N + 1"
proof -
  let ?e = "fr_script flags other"
  let ?tr1 = "nop (set_rx_mode ?e [])"
  let ?fl = "map (\<lambda>k. Read 6 (flags k)) [0 ..< N + 1]"
  obtain v0 w0 where tr1: "?tr1 = [Read 12 v0, Write 12 w0, Nop]"
    by (simp add: nop_def set_rx_mode_eq)
  have "length (reads_of 6 ?tr1) = 0"
    unfolding tr1 by (simp add: reads_of_simps)
  moreover have "\<And>k. k < N \<Longrightarrow> flags (0 + k) AND 0x20 \<noteq> 0"
    using assms(1) by simp
  moreover have "flags (0 + N) AND 0x20 = 0"
    using assms(2) by simp
  ultimately have "poll_txff ?e ?tr1 = Some (?tr1 @ map (\<lambda>k. Read 6 (flags k)) [0 ..< 0 + N + 1])"
    by (rule poll_txff_script)
  then have loop: "poll_txff ?e ?tr1 = Some (?tr1 @ ?fl)"
    by (simp only: add_0)
  obtain v1 w1 where
    tx: "set_tx_mode ?e (nop (?tr1 @ ?fl)) = (?tr1 @ ?fl) @ [Nop, Read 12 v1, Write 12 w1]"
    by (simp add: set_tx_mode_eq nop_def)
  let ?tr = "[Read 12 v0, Write 12 w0, Nop] @ ?fl @ [Nop, Read 12 v1, Write 12 w1]"
  have "write_packet ?e buf len = Some ((?tr1 @ ?fl) @ [Nop, Read 12 v1, Write 12 w1])"
    by (simp only: write_packet_def loop option.case tx)
  then have ret: "write_packet ?e buf len = Some ?tr"
    by (simp only: tr1 append_assoc)
  have "?fl = map (Read 6) (map flags [0 ..< N + 1])"
    by (simp only: map_map comp_def)
  then have "reads_of 6 ?tr = map flags [0 ..< N + 1]"
    by (simp only: flag_loads_of_call)
  then have "length (reads_of 6 ?tr) = N + 1"
    by simp
  with ret show ?thesis
    unfolding UARTCR_index UARTFR_index by blast
qed

theorem write_packet_poll_count_witness:
  "(0x20 :: u32) AND word_of_int UARTFR_TXFF \<noteq> 0
   \<and> (0 :: u32) AND word_of_int UARTFR_TXFF = 0
   \<and> (\<exists>v0 w0 v1 w1.
        write_packet (fr_script (\<lambda>k. if k < 2 then 0x20 else 0) (\<lambda>tr i. 0x55)) (\<lambda>tr i. 0xAA) 4 =
          Some [Read 12 v0, Write 12 w0, Nop, Read 6 0x20, Read 6 0x20, Read 6 0, Nop,
                Read 12 v1, Write 12 w1])"
proof -
  have h1: "\<forall>k<2. (if k < (2 :: nat) then 0x20 else 0 :: u32) AND word_of_int UARTFR_TXFF \<noteq> 0"
    by simp
  have h2: "(if (2 :: nat) < 2 then 0x20 else 0 :: u32) AND word_of_int UARTFR_TXFF = 0"
    by simp
  have up: "[0 ..< 2 + 1] = [0, 1, 2]"
    by (simp add: upt_rec)
  from write_packet_poll_count [of 2 "\<lambda>k. if k < 2 then 0x20 else 0", OF h1 h2,
      of "\<lambda>tr i. 0x55" "\<lambda>tr i. 0xAA" 4]
  show ?thesis using h1 h2 unfolding up by auto
qed

text \<open>
  C5 (half-duplex discipline). No value that \<^verbatim>\<open>write_packet\<close> stores to the control
  register has bit 9 (receive-enable) and bit 8 (transmit-enable) both set, whatever the
  registers hold or return: this is so for the store of lines 16 to 19, which happens in
  every call, and for every store in the trace of a call that returns.
\<close>

theorem write_packet_half_duplex:
  "list_all (\<lambda>(i, w). \<not> (bit w 9 \<and> bit w 8)) (writes (set_rx_mode e []))
   \<and> (write_packet e buf len = Some tr \<longrightarrow>
        list_all (\<lambda>(i, w). \<not> (bit w 9 \<and> bit w 8)) (writes tr))"
proof (intro conjI impI)
  have "\<not> bit ((e [] 12 OR 0x200) AND NOT 0x100) 8"
    by (simp only: rx_bits) simp
  then show "list_all (\<lambda>(i, w). \<not> (bit w 9 \<and> bit w 8)) (writes (set_rx_mode e []))"
    by (simp only: set_rx_mode_eq) simp
next
  assume "write_packet e buf len = Some tr"
  then obtain fl v0 v1 where
    w: "writes tr = [(12, (v0 OR 0x200) AND NOT 0x100), (12, (v1 OR 0x100) AND NOT 0x200)]"
    by (rule write_packet_trace) (simp only: writes_of_call)
  have "\<not> bit ((v0 OR 0x200) AND NOT 0x100) 8" "\<not> bit ((v1 OR 0x100) AND NOT 0x200) 9"
    by (simp_all only: rx_bits tx_bits) simp_all
  then show "list_all (\<lambda>(i, w). \<not> (bit w 9 \<and> bit w 8)) (writes tr)"
    by (simp add: w)
qed

theorem write_packet_half_duplex_witness:
  "write_packet (mock 0x3A5 (\<lambda>k. if k < 2 then 0x20 else 0)) (\<lambda>tr i. 0xAA) 4 =
     Some [Read 12 0x3A5, Write 12 0x2A5, Nop, Read 6 0x20, Read 6 0x20, Read 6 0, Nop,
           Read 12 0x2A5, Write 12 0x1A5]
   \<and> \<not> (bit (0x2A5 :: u32) 9 \<and> bit (0x2A5 :: u32) 8)
   \<and> \<not> (bit (0x1A5 :: u32) 9 \<and> bit (0x1A5 :: u32) 8)"
  using write_packet_half_duplex [of "mock 0x3A5 (\<lambda>k. if k < 2 then 0x20 else 0)" "\<lambda>tr i. 0xAA" 4]
    mock_run [of "\<lambda>tr i. 0xAA" 4]
  by simp

text \<open>
  C6 (ordering). The trace of a call that returns is: one load and one store of the
  control register, the store in receive mode (bit 9 set, bit 8 clear); a \<^verbatim>\<open>nop\<close>; then
  all the flag-register loads of the call, at least one; a \<^verbatim>\<open>nop\<close>; then one load and
  one store of the control register, the store in transmit mode (bit 8 set, bit 9
  clear). So the receive-mode store comes before every flag load and the transmit-mode
  store after the last one.
\<close>

theorem write_packet_order:
  assumes "write_packet e buf len = Some tr"
  shows "\<exists>v0 w0 fl v1 w1.
           tr = [Read (UARTCR div 4) v0, Write (UARTCR div 4) w0, Nop]
              @ map (Read (UARTFR div 4)) fl
              @ [Nop, Read (UARTCR div 4) v1, Write (UARTCR div 4) w1]
         \<and> UARTCR div 4 \<noteq> UARTFR div 4
         \<and> bit w0 9 \<and> \<not> bit w0 8 \<and> bit w1 8 \<and> \<not> bit w1 9
         \<and> fl \<noteq> [] \<and> reads_of (UARTFR div 4) tr = fl"
proof -
  from assms obtain fl v0 v1 where
    tr: "tr = [Read 12 v0, Write 12 ((v0 OR 0x200) AND NOT 0x100), Nop] @ map (Read 6) fl
          @ [Nop, Read 12 v1, Write 12 ((v1 OR 0x100) AND NOT 0x200)]" and
    fl: "fl \<noteq> []"
    by (rule write_packet_trace)
  let ?w0 = "(v0 OR 0x200) AND NOT 0x100"
  let ?w1 = "(v1 OR 0x100) AND NOT 0x200"
  have "bit ?w0 9" "\<not> bit ?w0 8" "bit ?w1 8" "\<not> bit ?w1 9"
    by (simp_all only: rx_bits tx_bits) simp_all
  moreover have "reads_of 6 tr = fl"
    unfolding tr by (rule flag_loads_of_call)
  moreover have "UARTCR div 4 \<noteq> UARTFR div 4"
    by simp
  ultimately show ?thesis
    using tr fl unfolding UARTCR_index UARTFR_index by blast
qed

theorem write_packet_order_witness:
  "write_packet (mock 0x3A5 (\<lambda>k. if k < 2 then 0x20 else 0)) (\<lambda>tr i. 0xAA) 4 =
     Some ([Read 12 0x3A5, Write 12 0x2A5, Nop] @ map (Read 6) [0x20, 0x20, 0]
           @ [Nop, Read 12 0x2A5, Write 12 0x1A5])
   \<and> reads_of 6 [Read 12 0x3A5, Write 12 0x2A5, Nop, Read 6 0x20, Read 6 0x20, Read 6 0, Nop,
           Read 12 0x2A5, Write 12 0x1A5] = [0x20, 0x20, 0]"
  using write_packet_order [OF mock_run [of "\<lambda>tr i. 0xAA" 4]] mock_run [of "\<lambda>tr i. 0xAA" 4]
  by (simp add: reads_of_simps)

text \<open>
  C7 (hang). If every flag-register load the poll loop can perform in this call (after
  lines 16 to 21 and any number of earlier flag loads) reports the transmit FIFO full
  (bit 5 set), the poll loop never leaves and \<^verbatim>\<open>write_packet\<close> never returns. The final
  store to the control register is only reached through the exit of the loop, so it
  never happens.
\<close>

theorem write_packet_hangs:
  assumes "\<forall>fl. e (nop (set_rx_mode e []) @ map (Read (UARTFR div 4)) fl) (UARTFR div 4)
             AND word_of_int UARTFR_TXFF \<noteq> 0"
  shows "poll_txff e (nop (set_rx_mode e [])) = None \<and> write_packet e buf len = None"
proof -
  have "\<And>fl. e (nop (set_rx_mode e []) @ map (Read 6) fl) 6 AND 0x20 \<noteq> 0"
    using assms by simp
  then have "poll_txff e (nop (set_rx_mode e [])) = None"
    by (rule poll_txff_stuck)
  then show ?thesis by (simp add: write_packet_def)
qed

theorem write_packet_hangs_witness:
  "(0x20 :: u32) AND word_of_int UARTFR_TXFF \<noteq> 0
   \<and> write_packet (mock 0x3A5 (\<lambda>k. 0x20)) (\<lambda>tr i. 0xAA) 4 = None"
proof -
  have "\<forall>fl. mock 0x3A5 (\<lambda>k. 0x20) (nop (set_rx_mode (mock 0x3A5 (\<lambda>k. 0x20)) [])
            @ map (Read (UARTFR div 4)) fl) (UARTFR div 4)
          AND word_of_int UARTFR_TXFF \<noteq> 0"
    by (simp add: mock_def cr_cell_def fr_script_def)
  from write_packet_hangs [OF this] show ?thesis by simp
qed

text \<open>
  C8 (the payload parameters are not used). Take any two buffers, with whatever bytes
  behind them, and any two lengths. On the same register block the two calls behave
  alike: both never return, or both return the same trace of loads and stores, with the
  same indices and values. And no event of a call is a load or a store through
  \<^verbatim>\<open>buf\<close>: not in lines 16 to 19, which every call performs, and not in the trace of a
  call that returns, which holds the two control-register accesses, the flag loads of
  the loop and the two \<^verbatim>\<open>nop\<close>s only.
\<close>

theorem write_packet_payload_unused:
  "write_packet e buf len = write_packet e buf' len'
   \<and> buffer_accesses (set_rx_mode e []) = []
   \<and> (write_packet e buf len = Some tr \<longrightarrow>
        buffer_accesses tr = []
      \<and> length tr = length (reads tr) + length (writes tr) + 2)"
proof (intro conjI impI)
  show "write_packet e buf len = write_packet e buf' len'"
    by (simp add: write_packet_def)
next
  show "buffer_accesses (set_rx_mode e []) = []"
    by (simp only: set_rx_mode_eq) simp
next
  assume ret: "write_packet e buf len = Some tr"
  then obtain fl v0 v1 where
    tr: "tr = [Read 12 v0, Write 12 ((v0 OR 0x200) AND NOT 0x100), Nop] @ map (Read 6) fl
          @ [Nop, Read 12 v1, Write 12 ((v1 OR 0x100) AND NOT 0x200)]"
    by (rule write_packet_trace)
  show "buffer_accesses tr = []"
    unfolding tr by (rule buffer_accesses_of_call)
  have "length (reads tr) = length fl + 2" "length (writes tr) = 2" "length tr = length fl + 6"
    unfolding tr by (simp_all only: reads_of_call writes_of_call) simp_all
  then show "length tr = length (reads tr) + length (writes tr) + 2"
    by simp
qed

theorem write_packet_payload_unused_witness:
  "write_packet (mock 0x3A5 (\<lambda>k. if k < 2 then 0x20 else 0)) (\<lambda>tr i. 0xAA) 4 =
     Some [Read 12 0x3A5, Write 12 0x2A5, Nop, Read 6 0x20, Read 6 0x20, Read 6 0, Nop,
           Read 12 0x2A5, Write 12 0x1A5]
   \<and> write_packet (mock 0x3A5 (\<lambda>k. if k < 2 then 0x20 else 0)) (\<lambda>tr i. of_nat i) 0 =
     Some [Read 12 0x3A5, Write 12 0x2A5, Nop, Read 6 0x20, Read 6 0x20, Read 6 0, Nop,
           Read 12 0x2A5, Write 12 0x1A5]
   \<and> buffer_accesses [Read 12 0x3A5, Write 12 0x2A5, Nop, Read 6 0x20, Read 6 0x20, Read 6 0,
        Nop, Read 12 0x2A5, Write 12 0x1A5] = []"
  using write_packet_payload_unused
      [of "mock 0x3A5 (\<lambda>k. if k < 2 then 0x20 else 0)" "\<lambda>tr i. 0xAA" 4 "\<lambda>tr i. of_nat i" 0]
    mock_run [of "\<lambda>tr i. 0xAA" 4]
  by simp

text \<open>
  C9 (registers touched). A call that returns has performed exactly two stores, both to
  the control register at byte offset \<open>0x30\<close>; so the flag register at byte offset
  \<open>0x18\<close> is never stored to. Every load is from byte offset \<open>0x30\<close> or \<open>0x18\<close>, so no
  other register is accessed.
\<close>

theorem write_packet_accesses:
  assumes "write_packet e buf len = Some tr"
  shows "length (writes tr) = 2
       \<and> list_all (\<lambda>(i, w). byte_offset i = 0x30) (writes tr)
       \<and> list_all (\<lambda>(i, v). byte_offset i = 0x30 \<or> byte_offset i = 0x18) (reads tr)"
proof -
  from assms obtain fl v0 v1 where
    tr: "tr = [Read 12 v0, Write 12 ((v0 OR 0x200) AND NOT 0x100), Nop] @ map (Read 6) fl
          @ [Nop, Read 12 v1, Write 12 ((v1 OR 0x100) AND NOT 0x200)]"
    by (rule write_packet_trace)
  have w: "writes tr = [(12, (v0 OR 0x200) AND NOT 0x100), (12, (v1 OR 0x100) AND NOT 0x200)]"
    unfolding tr by (rule writes_of_call)
  have r: "reads tr = (12, v0) # map (Pair 6) fl @ [(12, v1)]"
    unfolding tr by (rule reads_of_call)
  have "list_all (\<lambda>(i, v). byte_offset i = 0x30 \<or> byte_offset i = 0x18) (map (Pair 6) fl)"
    by (induction fl) (simp_all add: byte_offset_def)
  then have "list_all (\<lambda>(i, v). byte_offset i = 0x30 \<or> byte_offset i = 0x18) (reads tr)"
    unfolding r by (simp add: byte_offset_def)
  moreover have "length (writes tr) = 2"
    "list_all (\<lambda>(i, w). byte_offset i = 0x30) (writes tr)"
    unfolding w by (simp_all add: byte_offset_def)
  ultimately show ?thesis by blast
qed

theorem write_packet_accesses_witness:
  "write_packet (mock 0x3A5 (\<lambda>k. if k < 2 then 0x20 else 0)) (\<lambda>tr i. 0xAA) 4 =
     Some [Read 12 0x3A5, Write 12 0x2A5, Nop, Read 6 0x20, Read 6 0x20, Read 6 0, Nop,
           Read 12 0x2A5, Write 12 0x1A5]
   \<and> writes [Read 12 0x3A5, Write 12 0x2A5, Nop, Read 6 0x20, Read 6 0x20, Read 6 0, Nop,
           Read 12 0x2A5, Write 12 0x1A5] = [(12, 0x2A5), (12, 0x1A5)]
   \<and> byte_offset 12 = 0x30 \<and> byte_offset 6 = 0x18"
  using write_packet_accesses [OF mock_run [of "\<lambda>tr i. 0xAA" 4]] mock_run [of "\<lambda>tr i. 0xAA" 4]
  by (simp add: byte_offset_def)

text \<open>
  C10 (the final store comes from a fresh load). In a call that returns, the last two
  events are a load of the control register and the store of that loaded value with
  bit 8 set and bit 9 cleared. The load is answered by the register block after
  everything before it: the first store, all the flag loads of the call and the second
  \<^verbatim>\<open>nop\<close>. The value stored in lines 16 to 19 plays no part, so bits that the hardware
  changed in between are stored back as they were loaded.
\<close>

theorem write_packet_fresh_read:
  assumes "write_packet e buf len = Some tr"
  shows "\<exists>pre. tr = pre @ [Read (UARTCR div 4) (e pre (UARTCR div 4)),
                            Write (UARTCR div 4)
                              ((e pre (UARTCR div 4) OR word_of_int UARTCR_TXE)
                                 AND NOT (word_of_int UARTCR_RXE))]
         \<and> length (writes pre) = 1
         \<and> reads_of (UARTFR div 4) pre = reads_of (UARTFR div 4) tr
         \<and> last pre = Nop"
proof -
  from assms obtain fl v0 v1 where
    tr: "tr = [Read 12 v0, Write 12 ((v0 OR 0x200) AND NOT 0x100), Nop] @ map (Read 6) fl
          @ [Nop, Read 12 v1, Write 12 ((v1 OR 0x100) AND NOT 0x200)]" and
    v1: "v1 = e ([Read 12 v0, Write 12 ((v0 OR 0x200) AND NOT 0x100), Nop] @ map (Read 6) fl @ [Nop]) 12"
    by (rule write_packet_trace)
  let ?pre = "[Read 12 v0, Write 12 ((v0 OR 0x200) AND NOT 0x100), Nop] @ map (Read 6) fl @ [Nop]"
  have "e ?pre 12 = v1"
    by (rule v1 [symmetric])
  then have "tr = ?pre @ [Read 12 (e ?pre 12), Write 12 ((e ?pre 12 OR 0x100) AND NOT 0x200)]"
    unfolding tr by (simp only: append_assoc append_Cons append_Nil)
  moreover have "length (writes ?pre) = 1"
    by (simp add: writes_append writes_flag_loads)
  moreover have "reads_of 6 ?pre = fl"
    by (simp add: reads_of_simps reads_of_append reads_of_loads)
  moreover have "reads_of 6 tr = fl"
    unfolding tr by (rule flag_loads_of_call)
  moreover have "last ?pre = Nop"
    by simp
  ultimately show ?thesis
    unfolding UARTCR_index UARTFR_index TXE_u32 RXE_u32 by (intro exI [of _ ?pre]) simp
qed

theorem write_packet_fresh_read_witness:
  "write_packet (\<lambda>tr i. if i = 12 then (if tr = [] then 0x20F else 0x2F0) else 0) (\<lambda>tr i. 0xAA) 4 =
     Some [Read 12 0x20F, Write 12 0x20F, Nop, Read 6 0, Nop, Read 12 0x2F0, Write 12 0x1F0]
   \<and> (0x1F0 :: u32) = (0x2F0 OR word_of_int UARTCR_TXE) AND NOT (word_of_int UARTCR_RXE)
   \<and> (0x1F0 :: u32) \<noteq> (0x20F OR word_of_int UARTCR_TXE) AND NOT (word_of_int UARTCR_RXE)"
proof -
  let ?e = "\<lambda>tr i. if i = 12 then (if tr = [] then 0x20F else 0x2F0) else (0 :: u32)"
  have run: "write_packet ?e (\<lambda>tr i. 0xAA) 4 =
     Some [Read 12 0x20F, Write 12 0x20F, Nop, Read 6 0, Nop, Read 12 0x2F0, Write 12 0x1F0]"
    by (simp add: write_packet_def set_rx_mode_eq set_tx_mode_eq nop_def poll_txff_step)
  from write_packet_fresh_read [OF run] run show ?thesis
    by simp
qed

end
